theory Spec2Isabelle
  imports Main
begin

section \<open>The column summation script \<^verbatim>\<open>eval/data_time/count.py\<close>\<close>

text \<open>
  The script reads a CSV file, adds up \<^verbatim>\<open>float(row[8])\<close> over the rows that have more
  than one field, and prints the total. The model follows the script statement by
  statement. Everything the script does beyond computing a value is explicit:
  \<^item> an exception is a value of \<open>exn\<close>; a statement that may raise returns a sum whose
    \<open>Inl\<close> side carries the exception;
  \<^item> \<^verbatim>\<open>print\<close> appends its text to the list of texts written to standard output, one
    entry per call (each call writes its text followed by a newline);
  \<^item> the file system is a function from paths to what \<^verbatim>\<open>open\<close> finds there;
  \<^item> the rows of a file are the lists of fields that \<^verbatim>\<open>csv.reader\<close> yields for it:
    decoding and CSV parsing are outside the model, and a file that opens is read to
    its end.
\<close>

subsection \<open>Exceptions, indexing, the file system\<close>

text \<open>
  The exceptions the script can meet. \<open>OSError\<close> stands for an \<open>OSError\<close> that is none of
  its subclasses named here.
\<close>

datatype exn =
  FileNotFoundError | NotADirectoryError | PermissionError | IsADirectoryError | OSError
  | IndexError | ValueError

text \<open>\<^verbatim>\<open>xs[i]\<close> for a non-negative index: out of range raises \<open>IndexError\<close>.\<close>

definition getitem :: "'a list \<Rightarrow> nat \<Rightarrow> exn + 'a" where
  "getitem xs i = (if i < length xs then Inr (xs ! i) else Inl IndexError)"

text \<open>
  What \<^verbatim>\<open>open\<close> finds at a path:
  \<^item> \<open>Absent\<close>: the directories on the way exist and hold no entry of that name;
  \<^item> \<open>BehindFile\<close>: a component on the way is not a directory (\<^verbatim>\<open>plain.csv/x\<close>);
  \<^item> \<open>NameTooLong\<close>: a name longer than the file system allows;
  \<^item> \<open>Denied\<close>: a file without read permission;
  \<^item> \<open>Directory\<close>: a directory;
  \<^item> \<open>CsvFile rows\<close>: a readable file that \<^verbatim>\<open>csv.reader\<close> yields as \<open>rows\<close>.
\<close>

datatype entry =
  Absent | BehindFile | NameTooLong | Denied | Directory | CsvFile "string list list"

type_synonym filesystem = "string \<Rightarrow> entry"


text \<open>
  \<^verbatim>\<open>open(file_path, mode='r')\<close> followed by \<^verbatim>\<open>csv.reader(file)\<close>. Only the first kind of
  nonexistent path raises \<open>FileNotFoundError\<close>; the second raises \<open>NotADirectoryError\<close>
  and the third a plain \<open>OSError\<close>.
\<close>

fun py_open :: "entry \<Rightarrow> exn + string list list" where
  "py_open Absent = Inl FileNotFoundError"
| "py_open BehindFile = Inl NotADirectoryError"
| "py_open NameTooLong = Inl OSError"
| "py_open Denied = Inl PermissionError"
| "py_open Directory = Inl IsADirectoryError"
| "py_open (CsvFile rows) = Inr rows"

subsection \<open>Numbers\<close>

text \<open>
  \<open>total\<close> starts as the integer \<open>0\<close> and becomes a float at the first addition. The
  floats themselves are the platform's IEEE doubles: the conversion of an accepted text,
  the conversion of an integer, the addition and \<^verbatim>\<open>repr\<close> are parameters of the model,
  so every theorem holds for whatever these operations are. Text is a list of bytes; on
  a text with a byte beyond ASCII (a character encoded in several bytes) \<^verbatim>\<open>float\<close> knows
  further digits and spaces, and whether it accepts such a text is a parameter too.
\<close>

datatype 'f pynum = PyInt int | PyFloat 'f

record 'f float_ops =
  from_str :: "string \<Rightarrow> 'f"
  from_int :: "int \<Rightarrow> 'f"
  fadd :: "'f \<Rightarrow> 'f \<Rightarrow> 'f"
  frepr :: "'f \<Rightarrow> string"
  accepts_non_ascii :: "string \<Rightarrow> bool"

text \<open>\<^verbatim>\<open>total + x\<close> for a float \<open>x\<close>: an integer operand is converted first.\<close>

fun py_add :: "'f float_ops \<Rightarrow> 'f pynum \<Rightarrow> 'f \<Rightarrow> 'f pynum" where
  "py_add ops (PyInt i) x = PyFloat (fadd ops (from_int ops i) x)"
| "py_add ops (PyFloat a) x = PyFloat (fadd ops a x)"

fun str_nat :: "nat \<Rightarrow> string" where
  "str_nat n =
     (if n < 10 then [''0123456789'' ! n]
      else str_nat (n div 10) @ [''0123456789'' ! (n mod 10)])"

declare str_nat.simps [simp del]

definition str_int :: "int \<Rightarrow> string" where
  "str_int i = (if i < 0 then CHR ''-'' # str_nat (nat (- i)) else str_nat (nat i))"

text \<open>The text an f-string puts in for \<^verbatim>\<open>{result}\<close>.\<close>

fun py_str :: "'f float_ops \<Rightarrow> 'f pynum \<Rightarrow> string" where
  "py_str ops (PyInt i) = str_int i"
| "py_str ops (PyFloat x) = frepr ops x"

subsection \<open>The texts \<^verbatim>\<open>float\<close> accepts\<close>

text \<open>
  \<^verbatim>\<open>float(s)\<close> on an ASCII string, as the language reference gives it and CPython
  implements it: whitespace around the text is dropped; then comes an optional sign; then
  either \<^verbatim>\<open>inf\<close>, \<^verbatim>\<open>infinity\<close> or \<^verbatim>\<open>nan\<close> in any letter case, or a decimal number with
  an optional exponent. A run of digits may have single underscores between digits.
  Any other ASCII text raises \<open>ValueError\<close>.
\<close>

definition is_ascii :: "char \<Rightarrow> bool" where
  "is_ascii c = (\<not> digit7 c)"

definition is_digit :: "char \<Rightarrow> bool" where
  "is_digit c = (c \<in> set ''0123456789'')"

definition is_space :: "char \<Rightarrow> bool" where
  "is_space c = (c \<in> set [CHR 0x09, CHR 0x0A, CHR 0x0B, CHR 0x0C, CHR 0x0D, CHR '' ''])"

definition strip :: "string \<Rightarrow> string" where
  "strip s = rev (dropWhile is_space (rev (dropWhile is_space s)))"

definition lower :: "char \<Rightarrow> char" where
  "lower c =
     (case map_of (zip ''ABCDEFGHIJKLMNOPQRSTUVWXYZ'' ''abcdefghijklmnopqrstuvwxyz'') c of
        Some l \<Rightarrow> l
      | None \<Rightarrow> c)"

definition is_sign :: "char \<Rightarrow> bool" where
  "is_sign c = (c = CHR ''+'' \<or> c = CHR ''-'')"

fun drop_sign :: "string \<Rightarrow> string" where
  "drop_sign [] = []"
| "drop_sign (c # cs) = (if is_sign c then cs else c # cs)"

text \<open>\<^verbatim>\<open>digitpart ::= digit (["_"] digit)*\<close>\<close>

fun digitpart :: "string \<Rightarrow> bool" where
  "digitpart [] = False"
| "digitpart [c] = is_digit c"
| "digitpart (c # d # cs) =
     (is_digit c \<and> (if d = CHR ''_'' then digitpart cs else digitpart (d # cs)))"

text \<open>\<^verbatim>\<open>number ::= [digitpart] "." digitpart | digitpart ["."]\<close>\<close>

definition is_point :: "char \<Rightarrow> bool" where
  "is_point c = (c = CHR ''.'')"

definition number :: "string \<Rightarrow> bool" where
  "number s =
     (let ip = takeWhile (\<lambda>c. \<not> is_point c) s;
          rest = dropWhile (\<lambda>c. \<not> is_point c) s
      in if rest = [] then digitpart ip
         else ((ip = [] \<or> digitpart ip) \<and> digitpart (tl rest))
              \<or> (digitpart ip \<and> tl rest = []))"

text \<open>\<^verbatim>\<open>floatnumber ::= number [("e" | "E") ["+" | "-"] digitpart]\<close>\<close>

definition is_e :: "char \<Rightarrow> bool" where
  "is_e c = (c = CHR ''e'' \<or> c = CHR ''E'')"

definition floatnumber :: "string \<Rightarrow> bool" where
  "floatnumber s =
     (let mant = takeWhile (\<lambda>c. \<not> is_e c) s;
          rest = dropWhile (\<lambda>c. \<not> is_e c) s
      in if rest = [] then number mant
         else number mant \<and> digitpart (drop_sign (tl rest)))"

definition inf_or_nan :: "string \<Rightarrow> bool" where
  "inf_or_nan s = (map lower s \<in> set [''inf'', ''infinity'', ''nan''])"

definition float_grammar :: "string \<Rightarrow> bool" where
  "float_grammar s = (let u = drop_sign (strip s) in inf_or_nan u \<or> floatnumber u)"

definition float_accepts :: "'f float_ops \<Rightarrow> string \<Rightarrow> bool" where
  "float_accepts ops s =
     (if list_all is_ascii s then float_grammar s else accepts_non_ascii ops s)"

definition py_float :: "'f float_ops \<Rightarrow> string \<Rightarrow> exn + 'f" where
  "py_float ops s = (if float_accepts ops s then Inr (from_str ops s) else Inl ValueError)"

subsection \<open>The script\<close>

record 'f state =
  total :: "'f pynum"
  stdout :: "string list"

text \<open>The body of the inner \<^verbatim>\<open>try\<close>: \<^verbatim>\<open>total += float(row[8])\<close>.\<close>

definition add_field :: "'f float_ops \<Rightarrow> string list \<Rightarrow> 'f pynum \<Rightarrow> exn + 'f pynum" where
  "add_field ops row t =
     (case getitem row 8 of
        Inl e \<Rightarrow> Inl e
      | Inr s \<Rightarrow> (case py_float ops s of
                    Inl e \<Rightarrow> Inl e
                  | Inr x \<Rightarrow> Inr (py_add ops t x)))"

text \<open>
  The \<^verbatim>\<open>for row in reader\<close> loop. It returns the exception that left the loop, if any,
  and the state reached: what was printed stays printed.
\<close>

fun for_rows :: "'f float_ops \<Rightarrow> string list list \<Rightarrow> 'f state \<Rightarrow> exn option \<times> 'f state" where
  "for_rows ops [] st = (None, st)"
| "for_rows ops (row # rest) st =
     (if length row > 1 then
        (case add_field ops row (total st) of
           Inr t \<Rightarrow> for_rows ops rest (st\<lparr>total := t\<rparr>)
         | Inl e \<Rightarrow>
             if e = ValueError then
               (case getitem row 8 of
                  Inl e' \<Rightarrow> (Some e', st)
                | Inr s \<Rightarrow>
                    for_rows ops rest (st\<lparr>stdout := stdout st @ [''Skipping invalid value: '' @ s]\<rparr>))
             else (Some e, st))
      else for_rows ops rest st)"

definition sum_second_column ::
  "'f float_ops \<Rightarrow> filesystem \<Rightarrow> string \<Rightarrow> string list \<Rightarrow> (exn + 'f pynum) \<times> string list" where
  "sum_second_column ops fs file_path out =
     (let st0 = \<lparr>total = PyInt 0, stdout = out\<rparr>;
          (raised, st) = (case py_open (fs file_path) of
                            Inl e \<Rightarrow> (Some e, st0)
                          | Inr rows \<Rightarrow> for_rows ops rows st0)
      in case raised of
           None \<Rightarrow> (Inr (total st), stdout st)
         | Some e \<Rightarrow>
             if e = FileNotFoundError
             then (Inr (total st), stdout st @ [''File not found: '' @ file_path])
             else (Inl e, stdout st))"

datatype exit_status = Normal | Uncaught exn

text \<open>The statements at the top level of the script, run with the argument list \<open>argv\<close>.\<close>

definition script :: "'f float_ops \<Rightarrow> filesystem \<Rightarrow> string list \<Rightarrow> exit_status \<times> string list" where
  "script ops fs argv =
     (case getitem argv 1 of
        Inl e \<Rightarrow> (Uncaught e, [])
      | Inr file_path \<Rightarrow>
          (case sum_second_column ops fs file_path [] of
             (Inl e, out) \<Rightarrow> (Uncaught e, out)
           | (Inr result, out) \<Rightarrow>
               (Normal, out @ [''The sum of the second column is: '' @ py_str ops result])))"

subsection \<open>An instance of the float operations\<close>

text \<open>
  For running the model on concrete files the float parameters are instantiated by
  unevaluated expressions: a float is the expression that produced it. Nothing is
  assumed about the arithmetic, and the order of the additions stays visible. The
  instance is only run on ASCII text.
\<close>

datatype fexpr = FromStr string | FromInt int | FAdd fexpr fexpr

fun show_fexpr :: "fexpr \<Rightarrow> string" where
  "show_fexpr (FromStr s) = ''float('' @ s @ '')''"
| "show_fexpr (FromInt i) = ''float('' @ str_int i @ '')''"
| "show_fexpr (FAdd a b) = ''('' @ show_fexpr a @ '' + '' @ show_fexpr b @ '')''"

definition sym_ops :: "fexpr float_ops" where
  "sym_ops = \<lparr>from_str = FromStr, from_int = FromInt, fadd = FAdd, frepr = show_fexpr,
               accepts_non_ascii = (\<lambda>s. False)\<rparr>"

subsection \<open>What the specification says the total is\<close>

text \<open>
  The specification's invariant, in its own words: the sum of all successfully parsed
  values at index 8 across all rows that had more than one field, starting from zero.
  The sum is taken in file order, as floating-point addition is not associative.
\<close>

definition rows_of :: "entry \<Rightarrow> string list list" where
  "rows_of e = (case e of CsvFile rows \<Rightarrow> rows | _ \<Rightarrow> [])"

definition counted_values :: "'f float_ops \<Rightarrow> string list list \<Rightarrow> 'f list" where
  "counted_values ops rows =
     map (from_str ops)
       (filter (float_accepts ops)
          (List.map_filter (\<lambda>row. case getitem row 8 of Inr s \<Rightarrow> Some s | Inl e \<Rightarrow> None)
             (filter (\<lambda>row. length row > 1) rows)))"

definition spec_total :: "'f float_ops \<Rightarrow> string list list \<Rightarrow> 'f pynum" where
  "spec_total ops rows = foldl (py_add ops) (PyInt 0) (counted_values ops rows)"

subsection \<open>What the specification says is printed\<close>





definition is_total_line :: "string \<Rightarrow> bool" where
  "is_total_line l =
     (take (length ''The sum of the second column is: '') l = ''The sum of the second column is: '')"

subsection \<open>What the specification says a countable field looks like\<close>

text \<open>
  The claimed grammar, in the specification's words: a base-10 floating-point number,
  optionally signed, with an optional decimal point and an optional exponent. It is read
  generously: digits may stand on either side of the point or on both. What counts as a
  run of digits is a parameter \<open>D\<close>; in the claimed grammar it is a plain run of digits.
\<close>

definition plain_digits :: "string \<Rightarrow> bool" where
  "plain_digits s = (s \<noteq> [] \<and> list_all is_digit s)"

definition spec_number :: "(string \<Rightarrow> bool) \<Rightarrow> string \<Rightarrow> bool" where
  "spec_number D s =
     (let ip = takeWhile (\<lambda>c. \<not> is_point c) s;
          rest = dropWhile (\<lambda>c. \<not> is_point c) s
      in if rest = [] then D ip
         else (ip = [] \<or> D ip) \<and> (tl rest = [] \<or> D (tl rest))
              \<and> (ip \<noteq> [] \<or> tl rest \<noteq> []))"

definition spec_literal :: "(string \<Rightarrow> bool) \<Rightarrow> string \<Rightarrow> bool" where
  "spec_literal D s =
     (let u = drop_sign s;
          mant = takeWhile (\<lambda>c. \<not> is_e c) u;
          rest = dropWhile (\<lambda>c. \<not> is_e c) u
      in if rest = [] then spec_number D mant
         else spec_number D mant \<and> D (drop_sign (tl rest)))"

definition spec_float_literal :: "string \<Rightarrow> bool" where
  "spec_float_literal s = spec_literal plain_digits s"

text \<open>
  The grammar as amended: around the text there may be whitespace; the text is an
  optional sign and then \<^verbatim>\<open>inf\<close>, \<^verbatim>\<open>infinity\<close> or \<^verbatim>\<open>nan\<close> in any letter case, or it is
  of the claimed grammar with runs of digits in which single underscores may stand, each
  between two digits: without its underscores the run is a plain run of digits, and every
  underscore has a digit right before it and right after it.
\<close>

fun well_grouped :: "bool \<Rightarrow> string \<Rightarrow> bool" where
  "well_grouped p [] = True"
| "well_grouped p (c # cs) =
     (if c = CHR ''_''
      then p \<and> (case cs of [] \<Rightarrow> False | d # ds \<Rightarrow> is_digit d) \<and> well_grouped False cs
      else well_grouped (is_digit c) cs)"

definition grouped_digits :: "string \<Rightarrow> bool" where
  "grouped_digits s =
     (plain_digits (filter (\<lambda>c. c \<noteq> CHR ''_'') s) \<and> well_grouped False s)"

definition special_value :: "string \<Rightarrow> bool" where
  "special_value s = (map lower (drop_sign s) \<in> set [''inf'', ''infinity'', ''nan''])"

definition amended_literal :: "string \<Rightarrow> bool" where
  "amended_literal s = (let b = strip s in special_value b \<or> spec_literal grouped_digits b)"

section \<open>Properties\<close>

subsection \<open>Unfolding sets for evaluation\<close>

lemmas float_defs =
  float_accepts_def is_ascii_def float_grammar_def strip_def is_space_def inf_or_nan_def lower_def is_sign_def
  floatnumber_def is_e_def number_def is_point_def is_digit_def

lemmas spec_defs =
  amended_literal_def special_value_def spec_float_literal_def spec_literal_def
  spec_number_def grouped_digits_def plain_digits_def

lemmas run_defs =
  script_def sum_second_column_def add_field_def getitem_def py_float_def sym_ops_def
  str_int_def str_nat.simps

subsection \<open>The loop\<close>

text \<open>Only \<open>IndexError\<close> ever leaves the loop: \<open>ValueError\<close> is handled inside it.\<close>

lemma for_rows_raises_IndexError:
  "for_rows ops rows st = (Some e, st') \<Longrightarrow> e = IndexError"
  by (induction rows arbitrary: st)
     (auto simp: add_field_def getitem_def py_float_def split: if_splits sum.splits)

lemma for_rows_append:
  "for_rows ops (xs @ ys) st =
     (case for_rows ops xs st of (None, st') \<Rightarrow> for_rows ops ys st' | (Some e, st') \<Rightarrow> (Some e, st'))"
  by (induction xs arbitrary: st) (auto split: sum.splits option.splits prod.splits)

lemma counted_values_Nil: "counted_values ops [] = []"
  by (simp add: counted_values_def map_filter_simps)

lemma counted_values_Cons:
  "counted_values ops (row # rows) =
     (if length row > 1 \<and> 8 < length row \<and> float_accepts ops (row ! 8)
      then from_str ops (row ! 8) # counted_values ops rows
      else counted_values ops rows)"
  by (simp add: counted_values_def map_filter_simps getitem_def)

lemma for_rows_total:
  "for_rows ops rows st = (None, st') \<Longrightarrow>
     total st' = foldl (py_add ops) (total st) (counted_values ops rows)"
proof (induction rows arbitrary: st)
  case Nil
  then show ?case by (simp add: counted_values_Nil)
next
  case (Cons row rows)
  show ?case
  proof (cases "length row > 1")
    case False
    with Cons.prems have "for_rows ops rows st = (None, st')" by simp
    from Cons.IH [OF this] False show ?thesis by (simp add: counted_values_Cons)
  next
    case long: True
    show ?thesis
    proof (cases "8 < length row")
      case False
      with long Cons.prems show ?thesis by (simp add: add_field_def getitem_def)
    next
      case True
      show ?thesis
      proof (cases "float_accepts ops (row ! 8)")
        case acc: True
        with long True Cons.prems
        have "for_rows ops rows (st\<lparr>total := py_add ops (total st) (from_str ops (row ! 8))\<rparr>) = (None, st')"
          by (simp add: add_field_def getitem_def py_float_def)
        from Cons.IH [OF this] long True acc show ?thesis
          by (simp add: counted_values_Cons)
      next
        case rej: False
        with long True Cons.prems
        have "for_rows ops rows (st\<lparr>stdout := stdout st @ [''Skipping invalid value: '' @ row ! 8]\<rparr>) = (None, st')"
          by (simp add: add_field_def getitem_def py_float_def)
        from Cons.IH [OF this] long True rej show ?thesis
          by (simp add: counted_values_Cons)
      qed
    qed
  qed
qed

subsection \<open>Rows that the loop passes, and the lines of the output\<close>








lemma diagnostic_is_no_total_line:
  "\<not> is_total_line (''Skipping invalid value: '' @ s)"
  by (simp add: is_total_line_def)




subsection \<open>Termination and the final line\<close>




subsection \<open>The returned total\<close>

text \<open>
  Claim C2: whenever \<open>sum_second_column\<close> returns, the value it returns is the sum,
  started at zero and taken in file order, of the values at index 8 that parsed as
  floats, over exactly the rows of the file that had more than one field; no other row
  contributes. A missing file has no rows.
\<close>

theorem returned_total_is_sum:
  assumes "sum_second_column ops fs file_path out = (Inr t, out')"
  shows "t = spec_total ops (rows_of (fs file_path))"
proof (cases "fs file_path")
  case (CsvFile rows)
  obtain r st' where run: "for_rows ops rows \<lparr>total = PyInt 0, stdout = out\<rparr> = (r, st')"
    by (cases "for_rows ops rows \<lparr>total = PyInt 0, stdout = out\<rparr>")
  show ?thesis
  proof (cases r)
    case None
    with run for_rows_total [of ops rows "\<lparr>total = PyInt 0, stdout = out\<rparr>" st']
    have "total st' = spec_total ops rows" by (simp add: spec_total_def)
    with assms CsvFile run None show ?thesis
      by (simp add: sum_second_column_def rows_of_def)
  next
    case (Some e)
    with run have "e = IndexError" using for_rows_raises_IndexError by fastforce
    with assms CsvFile run Some show ?thesis
      by (simp add: sum_second_column_def)
  qed
qed (use assms in \<open>auto simp: sum_second_column_def rows_of_def spec_total_def counted_values_Nil\<close>)

theorem returned_total_is_sum_witness:
  "sum_second_column sym_ops
      (\<lambda>p. CsvFile [[''a'', ''b'', ''c'', ''d'', ''e'', ''f'', ''g'', ''h'', ''10.5''], [''onlyone''],
              [''p'', ''q'', ''r'', ''s'', ''t'', ''u'', ''v'', ''w'', ''4.5'']]) ''data.csv'' []
     = (Inr (PyFloat (FAdd (FAdd (FromInt 0) (FromStr ''10.5'')) (FromStr ''4.5''))), [])
   \<and> PyFloat (FAdd (FAdd (FromInt 0) (FromStr ''10.5'')) (FromStr ''4.5''))
     = spec_total sym_ops
         (rows_of (CsvFile [[''a'', ''b'', ''c'', ''d'', ''e'', ''f'', ''g'', ''h'', ''10.5''], [''onlyone''],
              [''p'', ''q'', ''r'', ''s'', ''t'', ''u'', ''v'', ''w'', ''4.5'']]))"
proof -
  let ?rows = "[[''a'', ''b'', ''c'', ''d'', ''e'', ''f'', ''g'', ''h'', ''10.5''], [''onlyone''],
              [''p'', ''q'', ''r'', ''s'', ''t'', ''u'', ''v'', ''w'', ''4.5'']]"
  let ?t = "PyFloat (FAdd (FAdd (FromInt 0) (FromStr ''10.5'')) (FromStr ''4.5''))"
  have h: "sum_second_column sym_ops (\<lambda>p. CsvFile ?rows) ''data.csv'' [] = (Inr ?t, [])"
    by (simp add: run_defs float_defs)
  from returned_total_is_sum [of sym_ops "\<lambda>p. CsvFile ?rows" "''data.csv''" "[]" ?t "[]"] h
  show ?thesis by simp
qed

subsection \<open>Rows of 2 to 8 fields\<close>

text \<open>
  Claim C3: for every row that has 2 to 8 fields, the access to the field at index 8
  raises \<open>IndexError\<close>, since the guard only excludes rows of fewer than 2 fields. The
  handler for \<open>ValueError\<close> does not catch it: the loop ends with the exception, the
  state as it was, and the handler for \<open>FileNotFoundError\<close> does not catch it either.
\<close>

theorem index_error_on_short_row:
  assumes "2 \<le> length row" and "length row \<le> 8"
  shows "getitem row 8 = Inl IndexError
       \<and> for_rows ops (row # rest) st = (Some IndexError, st)
       \<and> sum_second_column ops (fs(file_path := CsvFile (row # rest))) file_path out
           = (Inl IndexError, out)"
  using assms by (simp add: getitem_def add_field_def sum_second_column_def)

theorem index_error_on_short_row_witness:
  "2 \<le> length [''a'', ''b''] \<and> length [''a'', ''b''] \<le> 8
   \<and> getitem [''a'', ''b''] 8 = Inl IndexError
   \<and> for_rows sym_ops [[''a'', ''b''], [''a'', ''b'', ''c'', ''d'', ''e'', ''f'', ''g'', ''h'', ''10.5'']]
        \<lparr>total = PyInt 0, stdout = []\<rparr>
       = (Some IndexError, \<lparr>total = PyInt 0, stdout = []\<rparr>)"
  using index_error_on_short_row [of "[''a'', ''b'']" sym_ops
      "[[''a'', ''b'', ''c'', ''d'', ''e'', ''f'', ''g'', ''h'', ''10.5'']]"
      "\<lparr>total = PyInt 0, stdout = []\<rparr>"]
  by simp

subsection \<open>A nonexistent path\<close>




subsection \<open>Other failures of \<^verbatim>\<open>open\<close>\<close>




subsection \<open>A field that does not parse\<close>

text \<open>
  Claim C6: for every row whose field at index 8 exists and is not accepted by
  \<^verbatim>\<open>float\<close>, exactly one diagnostic \<^verbatim>\<open>Skipping invalid value: <raw text>\<close> carrying the
  raw field is printed, the total is left as it was, and the loop goes on with the next
  row.
\<close>

theorem invalid_value_skipped:
  assumes "getitem row 8 = Inr s" and "\<not> float_accepts ops s"
  shows "for_rows ops (row # rest) st
           = for_rows ops rest (st\<lparr>stdout := stdout st @ [''Skipping invalid value: '' @ s]\<rparr>)"
  using assms by (auto simp: getitem_def add_field_def py_float_def split: if_splits)

theorem invalid_value_skipped_witness:
  "getitem [''a'', ''b'', ''c'', ''d'', ''e'', ''f'', ''g'', ''h'', ''notanumber''] 8 = Inr ''notanumber''
   \<and> \<not> float_accepts sym_ops ''notanumber''
   \<and> for_rows sym_ops [[''a'', ''b'', ''c'', ''d'', ''e'', ''f'', ''g'', ''h'', ''notanumber'']]
        \<lparr>total = PyInt 0, stdout = []\<rparr>
       = (None, \<lparr>total = PyInt 0, stdout = [''Skipping invalid value: notanumber'']\<rparr>)"
proof -
  have g: "getitem [''a'', ''b'', ''c'', ''d'', ''e'', ''f'', ''g'', ''h'', ''notanumber''] 8 = Inr ''notanumber''"
    by (simp add: getitem_def)
  have n: "\<not> float_accepts sym_ops ''notanumber''" by (simp add: float_defs)
  from invalid_value_skipped [OF g n, of "[]" "\<lparr>total = PyInt 0, stdout = []\<rparr>"] g n
  show ?thesis by simp
qed

subsection \<open>Rows of fewer than two fields\<close>

text \<open>
  Claim C7: every row of zero or one field is skipped silently. Wherever it stands in
  the file, the loop ends in the same way, with the same total and the same output, as
  on the file without that row.
\<close>

theorem short_row_skipped:
  assumes "length row < 2"
  shows "for_rows ops (pre @ row # post) st = for_rows ops (pre @ post) st"
proof -
  have step: "for_rows ops (row # post) st' = for_rows ops post st'" for st'
    using assms by simp
  show ?thesis by (simp only: for_rows_append [of ops pre] step)
qed

theorem short_row_skipped_witness:
  "length [''onlyone''] < 2
   \<and> for_rows sym_ops [[''a'', ''b'', ''c'', ''d'', ''e'', ''f'', ''g'', ''h'', ''10.5''], [''onlyone'']]
        \<lparr>total = PyInt 0, stdout = []\<rparr>
     = for_rows sym_ops [[''a'', ''b'', ''c'', ''d'', ''e'', ''f'', ''g'', ''h'', ''10.5'']]
        \<lparr>total = PyInt 0, stdout = []\<rparr>"
  using short_row_skipped [of "[''onlyone'']" sym_ops
      "[[''a'', ''b'', ''c'', ''d'', ''e'', ''f'', ''g'', ''h'', ''10.5'']]" "[]"
      "\<lparr>total = PyInt 0, stdout = []\<rparr>"]
  by simp

subsection \<open>The grammar of \<^verbatim>\<open>float\<close> is the grammar as amended\<close>

lemma digit_not_underscore: "is_digit c \<Longrightarrow> c \<noteq> CHR ''_''"
  by (auto simp: is_digit_def)

lemma digitpart_starts_with_digit: "digitpart s \<Longrightarrow> s \<noteq> [] \<and> is_digit (hd s)"
  by (induction s rule: digitpart.induct) auto

lemma well_grouped_after_other:
  "c \<noteq> CHR ''_'' \<Longrightarrow> well_grouped p (c # cs) = well_grouped q (c # cs)"
  by simp

lemma digitpart_grouped_digits: "digitpart s = grouped_digits s"
proof (induction s rule: digitpart.induct)
  case 1
  show ?case by (simp add: grouped_digits_def plain_digits_def)
next
  case (2 c)
  show ?case using digit_not_underscore [of c]
    by (auto simp: grouped_digits_def plain_digits_def)
next
  case (3 c d cs)
  show ?case
  proof (cases "is_digit c")
    case False
    then show ?thesis by (auto simp: grouped_digits_def plain_digits_def)
  next
    case c: True
    then have cu: "c \<noteq> CHR ''_''" by (rule digit_not_underscore)
    show ?thesis
    proof (cases "d = CHR ''_''")
      case True
      with "3.IH"(1) have IH: "digitpart cs = grouped_digits cs" by simp
      show ?thesis
      proof (cases cs)
        case Nil
        with True c cu show ?thesis by (simp add: grouped_digits_def plain_digits_def)
      next
        case (Cons e es)
        with True c cu IH digitpart_starts_with_digit [of cs] show ?thesis
          by (auto simp: grouped_digits_def plain_digits_def)
      qed
    next
      case False
      with "3.IH"(2) have IH: "digitpart (d # cs) = grouped_digits (d # cs)" by simp
      from False c cu IH show ?thesis
        by (auto simp: grouped_digits_def plain_digits_def)
    qed
  qed
qed

lemma split_at: "set s = set (takeWhile P s) \<union> set (dropWhile P s)"
  by (metis set_append takeWhile_dropWhile_id)

lemma set_cases_hd_tl: "xs \<noteq> [] \<Longrightarrow> set xs = insert (hd xs) (set (tl xs))"
  by (cases xs) auto

lemma plain_digits_chars: "plain_digits s \<Longrightarrow> c \<in> set s \<Longrightarrow> is_digit c"
  by (simp add: plain_digits_def list_all_iff)

lemma drop_sign_chars: "c \<in> set s \<Longrightarrow> c \<in> set (drop_sign s) \<or> is_sign c"
  by (cases s) (auto split: if_splits)

lemma spec_number_chars:
  assumes "spec_number plain_digits s" and "c \<in> set s"
  shows "is_digit c \<or> is_point c"
proof -
  let ?P = "\<lambda>c. \<not> is_point c"
  from assms(2) split_at [of s ?P]
  consider "c \<in> set (takeWhile ?P s)" | "c \<in> set (dropWhile ?P s)" by auto
  then show ?thesis
  proof cases
    case 1
    then have "takeWhile ?P s \<noteq> []" by auto
    with assms(1) have "plain_digits (takeWhile ?P s)"
      by (auto simp: spec_number_def Let_def split: if_splits)
    with 1 show ?thesis by (auto dest: plain_digits_chars)
  next
    case 2
    then have ne: "dropWhile ?P s \<noteq> []" by (auto simp del: dropWhile_eq_Nil_conv)
    then have "is_point (hd (dropWhile ?P s))" using hd_dropWhile [of ?P s] by simp
    moreover from 2 ne have "c = hd (dropWhile ?P s) \<or> c \<in> set (tl (dropWhile ?P s))"
      using set_cases_hd_tl [OF ne] by auto
    moreover have "c \<in> set (tl (dropWhile ?P s)) \<Longrightarrow> is_digit c"
    proof -
      assume in_tl: "c \<in> set (tl (dropWhile ?P s))"
      then have "tl (dropWhile ?P s) \<noteq> []" by auto
      with assms(1) ne have "plain_digits (tl (dropWhile ?P s))"
        by (auto simp: spec_number_def Let_def split: if_splits)
      then show "is_digit c" using in_tl by (rule plain_digits_chars)
    qed
    ultimately show ?thesis by auto
  qed
qed

lemma spec_literal_chars:
  assumes "spec_float_literal s" and "c \<in> set s"
  shows "is_digit c \<or> is_point c \<or> is_sign c \<or> is_e c"
proof -
  let ?P = "\<lambda>c. \<not> is_e c"
  let ?u = "drop_sign s"
  from assms(2) have "c \<in> set ?u \<or> is_sign c" by (rule drop_sign_chars)
  then show ?thesis
  proof
    assume "c \<in> set ?u"
    with split_at [of ?u ?P]
    consider "c \<in> set (takeWhile ?P ?u)" | "c \<in> set (dropWhile ?P ?u)" by auto
    then show ?thesis
    proof cases
      case 1
      from assms(1) have "spec_number plain_digits (takeWhile ?P ?u)"
        by (auto simp: spec_float_literal_def spec_literal_def Let_def split: if_splits)
      with 1 show ?thesis by (auto dest: spec_number_chars)
    next
      case 2
      then have ne: "dropWhile ?P ?u \<noteq> []" by (auto simp del: dropWhile_eq_Nil_conv)
      then have "is_e (hd (dropWhile ?P ?u))" using hd_dropWhile [of ?P ?u] by simp
      moreover from 2 ne have "c = hd (dropWhile ?P ?u) \<or> c \<in> set (tl (dropWhile ?P ?u))"
        using set_cases_hd_tl [OF ne] by auto
      moreover have "c \<in> set (tl (dropWhile ?P ?u)) \<Longrightarrow> is_digit c \<or> is_sign c"
      proof -
        assume in_tl: "c \<in> set (tl (dropWhile ?P ?u))"
        from assms(1) ne have "plain_digits (drop_sign (tl (dropWhile ?P ?u)))"
          by (auto simp: spec_float_literal_def spec_literal_def Let_def split: if_splits)
        with drop_sign_chars [OF in_tl] show ?thesis by (auto dest: plain_digits_chars)
      qed
      ultimately show ?thesis by auto
    qed
  qed simp
qed

lemma space_is_no_literal_char:
  "is_space c \<Longrightarrow> \<not> (is_digit c \<or> is_point c \<or> is_sign c \<or> is_e c)"
  by (auto simp: is_space_def is_digit_def is_point_def is_sign_def is_e_def)

lemma strip_no_space:
  assumes "\<And>c. c \<in> set s \<Longrightarrow> \<not> is_space c"
  shows "strip s = s"
proof -
  from assms have front: "dropWhile is_space s = s" by (rule dropWhile_id)
  from assms have "dropWhile is_space (rev s) = rev s" by (intro dropWhile_id) simp
  with front show ?thesis by (simp add: strip_def)
qed

lemma number_spec_number: "number s = spec_number digitpart s"
  unfolding number_def spec_number_def Let_def by auto

lemma floatnumber_spec_literal: "floatnumber (drop_sign s) = spec_literal digitpart s"
  unfolding floatnumber_def spec_literal_def Let_def by (simp add: number_spec_number)

lemma float_grammar_amended_literal: "float_grammar s = amended_literal s"
proof -
  have "digitpart = grouped_digits" by (rule ext) (rule digitpart_grouped_digits)
  then show ?thesis
    by (simp add: float_grammar_def amended_literal_def special_value_def inf_or_nan_def
          floatnumber_spec_literal Let_def)
qed

lemma digits_well_grouped: "list_all is_digit s \<Longrightarrow> well_grouped p s"
  by (induction s arbitrary: p) (auto dest: digit_not_underscore)

lemma digits_no_underscore: "list_all is_digit s \<Longrightarrow> filter (\<lambda>c. c \<noteq> CHR ''_'') s = s"
  by (induction s) (auto dest: digit_not_underscore)

lemma plain_digits_grouped_digits: "plain_digits s \<Longrightarrow> grouped_digits s"
  by (simp add: grouped_digits_def plain_digits_def digits_well_grouped digits_no_underscore)

lemma spec_number_mono: "spec_number plain_digits s \<Longrightarrow> spec_number grouped_digits s"
  unfolding spec_number_def Let_def
  by (auto split: if_splits dest: plain_digits_grouped_digits)

lemma spec_literal_mono: "spec_literal plain_digits s \<Longrightarrow> spec_literal grouped_digits s"
  unfolding spec_literal_def Let_def
  by (auto split: if_splits dest: plain_digits_grouped_digits spec_number_mono)

lemma spec_literal_amended: "spec_float_literal s \<Longrightarrow> amended_literal s"
proof -
  assume lit: "spec_float_literal s"
  have "strip s = s"
  proof (rule strip_no_space)
    fix c assume "c \<in> set s"
    with lit have "is_digit c \<or> is_point c \<or> is_sign c \<or> is_e c" by (rule spec_literal_chars)
    then show "\<not> is_space c" using space_is_no_literal_char by blast
  qed
  moreover from lit have "spec_literal grouped_digits s"
    unfolding spec_float_literal_def by (rule spec_literal_mono)
  ultimately show ?thesis by (simp add: amended_literal_def)
qed

lemma ascii_float_accepts: "list_all is_ascii s \<Longrightarrow> float_accepts ops s = amended_literal s"
  by (simp add: float_accepts_def float_grammar_amended_literal)

subsection \<open>Which fields are counted\<close>

text \<open>
  Claim C8 says that a field at index 8 is counted only if its text is a base-10
  floating-point literal (optional sign, digits with an optional decimal point, optional
  exponent), and that \<^verbatim>\<open>inf\<close>, \<^verbatim>\<open>nan\<close> and digits grouped by underscores are not
  counted. This fails on the script: \<^verbatim>\<open>float\<close> accepts all three, and each is added to
  the total without a diagnostic.
\<close>

theorem inf_nan_underscore_counted:
  "\<not> spec_float_literal ''inf'' \<and> \<not> spec_float_literal ''nan'' \<and> \<not> spec_float_literal ''1_000''
   \<and> for_rows sym_ops
        [[''a'', ''b'', ''c'', ''d'', ''e'', ''f'', ''g'', ''h'', ''inf''],
         [''a'', ''b'', ''c'', ''d'', ''e'', ''f'', ''g'', ''h'', ''nan''],
         [''a'', ''b'', ''c'', ''d'', ''e'', ''f'', ''g'', ''h'', ''1_000'']]
        \<lparr>total = PyInt 0, stdout = []\<rparr>
     = (None, \<lparr>total = PyFloat (FAdd (FAdd (FAdd (FromInt 0) (FromStr ''inf'')) (FromStr ''nan''))
                                   (FromStr ''1_000'')),
               stdout = []\<rparr>)"
  by (simp add: spec_defs run_defs float_defs)

text \<open>
  Claim C8 as amended: a field at index 8 whose text is ASCII is counted if and only if,
  with the whitespace around it dropped, the text is an optional sign followed by
  \<^verbatim>\<open>inf\<close>, \<^verbatim>\<open>infinity\<close> or \<^verbatim>\<open>nan\<close> in any letter case, or a base-10 floating-point
  literal of the claimed grammar in which single underscores may stand between digits;
  every other ASCII field is reported and not counted. In particular every literal of
  the claimed grammar is counted.
\<close>

theorem field_counted_iff_amended_literal:
  assumes "getitem row 8 = Inr s" and "list_all is_ascii s"
  shows "for_rows ops (row # rest) st
           = (if amended_literal s
              then for_rows ops rest (st\<lparr>total := py_add ops (total st) (from_str ops s)\<rparr>)
              else for_rows ops rest (st\<lparr>stdout := stdout st @ [''Skipping invalid value: '' @ s]\<rparr>))
       \<and> (spec_float_literal s \<longrightarrow> amended_literal s)"
proof -
  from assms(2) have acc: "float_accepts ops s = amended_literal s" by (rule ascii_float_accepts)
  from assms(1) have long: "8 < length row" and field: "row ! 8 = s"
    by (auto simp: getitem_def split: if_splits)
  from long field acc have "for_rows ops (row # rest) st
           = (if amended_literal s
              then for_rows ops rest (st\<lparr>total := py_add ops (total st) (from_str ops s)\<rparr>)
              else for_rows ops rest (st\<lparr>stdout := stdout st @ [''Skipping invalid value: '' @ s]\<rparr>))"
    by (simp add: getitem_def add_field_def py_float_def)
  with spec_literal_amended [of s] show ?thesis by blast
qed

theorem field_counted_iff_amended_literal_witness:
  "getitem [''a'', ''b'', ''c'', ''d'', ''e'', ''f'', ''g'', ''h'', ''-1.5e3''] 8 = Inr ''-1.5e3''
   \<and> list_all is_ascii ''-1.5e3'' \<and> spec_float_literal ''-1.5e3'' \<and> amended_literal ''-1.5e3''
   \<and> for_rows sym_ops [[''a'', ''b'', ''c'', ''d'', ''e'', ''f'', ''g'', ''h'', ''-1.5e3'']]
        \<lparr>total = PyInt 0, stdout = []\<rparr>
     = (None, \<lparr>total = PyFloat (FAdd (FromInt 0) (FromStr ''-1.5e3'')), stdout = []\<rparr>)
   \<and> amended_literal '' +Infinity'' \<and> \<not> amended_literal ''1__0''
   \<and> for_rows sym_ops [[''a'', ''b'', ''c'', ''d'', ''e'', ''f'', ''g'', ''h'', ''1__0'']]
        \<lparr>total = PyInt 0, stdout = []\<rparr>
     = (None, \<lparr>total = PyInt 0, stdout = [''Skipping invalid value: 1__0'']\<rparr>)"
proof -
  have g: "getitem [''a'', ''b'', ''c'', ''d'', ''e'', ''f'', ''g'', ''h'', ''-1.5e3''] 8 = Inr ''-1.5e3''"
    and g2: "getitem [''a'', ''b'', ''c'', ''d'', ''e'', ''f'', ''g'', ''h'', ''1__0''] 8 = Inr ''1__0''"
    by (simp_all add: getitem_def)
  have a: "list_all is_ascii ''-1.5e3''" and a2: "list_all is_ascii ''1__0''"
    by (simp_all add: is_ascii_def)
  have l: "spec_float_literal ''-1.5e3''"
    by (simp add: spec_defs float_defs)
  have inf: "amended_literal '' +Infinity''"
    by (simp add: spec_defs float_defs)
  have bad: "\<not> amended_literal ''1__0''"
    by (simp add: spec_defs float_defs)
  note counted = field_counted_iff_amended_literal [OF g a, of sym_ops "[]" "\<lparr>total = PyInt 0, stdout = []\<rparr>"]
  note skipped = field_counted_iff_amended_literal [OF g2 a2, of sym_ops "[]" "\<lparr>total = PyInt 0, stdout = []\<rparr>"]
  from counted l have am: "amended_literal ''-1.5e3''" by blast
  from counted am
  have r1: "for_rows sym_ops [[''a'', ''b'', ''c'', ''d'', ''e'', ''f'', ''g'', ''h'', ''-1.5e3'']]
        \<lparr>total = PyInt 0, stdout = []\<rparr>
     = (None, \<lparr>total = PyFloat (FAdd (FromInt 0) (FromStr ''-1.5e3'')), stdout = []\<rparr>)"
    by (simp add: sym_ops_def)
  from skipped bad
  have r2: "for_rows sym_ops [[''a'', ''b'', ''c'', ''d'', ''e'', ''f'', ''g'', ''h'', ''1__0'']]
        \<lparr>total = PyInt 0, stdout = []\<rparr>
     = (None, \<lparr>total = PyInt 0, stdout = [''Skipping invalid value: 1__0'']\<rparr>)"
    by simp
  from g a l am r1 inf bad r2 show ?thesis by simp
qed

subsection \<open>Determinism\<close>

text \<open>
  Claim C9: two runs on the same unmodified file print the same total. The script only
  reads: what a run prints and how it ends depend on the file system only through what
  is found at the given path, and not on the program name or on further arguments.
\<close>

theorem same_file_same_output:
  assumes "fs1 file_path = fs2 file_path"
  shows "script ops fs1 (prog1 # file_path # more1) = script ops fs2 (prog2 # file_path # more2)"
  using assms by (simp add: script_def sum_second_column_def getitem_def)

theorem same_file_same_output_witness:
  "script sym_ops (\<lambda>p. if p = ''data.csv'' then CsvFile [[''a'', ''b'', ''c'', ''d'', ''e'', ''f'', ''g'', ''h'', ''10.5'']] else Absent)
      [''count.py'', ''data.csv'']
   = script sym_ops (\<lambda>p. if p = ''data.csv'' then CsvFile [[''a'', ''b'', ''c'', ''d'', ''e'', ''f'', ''g'', ''h'', ''10.5'']] else Denied)
      [''./count.py'', ''data.csv'']"
  using same_file_same_output [of
      "\<lambda>p. if p = ''data.csv'' then CsvFile [[''a'', ''b'', ''c'', ''d'', ''e'', ''f'', ''g'', ''h'', ''10.5'']] else Absent"
      "''data.csv''"
      "\<lambda>p. if p = ''data.csv'' then CsvFile [[''a'', ''b'', ''c'', ''d'', ''e'', ''f'', ''g'', ''h'', ''10.5'']] else Denied"
      sym_ops "''count.py''" "[]" "''./count.py''" "[]"]
  by simp

subsection \<open>No command-line argument\<close>

text \<open>
  Claim C10: when the program is invoked with no argument, the access \<^verbatim>\<open>sys.argv[1]\<close>
  raises \<open>IndexError\<close> before \<open>sum_second_column\<close> is called; the program ends with that
  exception and prints nothing, so no final total line.
\<close>

theorem no_argument_index_error:
  assumes "length argv \<le> 1"
  shows "script ops fs argv = (Uncaught IndexError, [])"
  using assms by (simp add: script_def getitem_def)

theorem no_argument_index_error_witness:
  "length [''count.py''] \<le> 1 \<and> script sym_ops (\<lambda>p. Absent) [''count.py''] = (Uncaught IndexError, [])"
  using no_argument_index_error [of "[''count.py'']" sym_ops "\<lambda>p. Absent"] by simp

end
